theory Spec2Isabelle
  imports
    Complex_Main
    "HOL-Library.Char_ord"
    "HOL-Library.List_Lexorder"
    "HOL-Library.Product_Lexorder"
begin

section \<open>Python values, errors and the remote store\<close>

text \<open>
  The modules \<^verbatim>\<open>sudep.py\<close>, \<^verbatim>\<open>sudep_HRV.py\<close> and \<^verbatim>\<open>sudep_pdf.py\<close> are Python 2.
  Every exception the modelled code can raise is a value of \<open>py_error\<close>; a function that
  can raise returns \<open>py_error + 'a\<close> with \<open>Inl\<close> for the exception.
\<close>

datatype py_error =
    KeyError | TypeError | ValueError | IOError | OSError | ConnectionError | UnpicklingError

text \<open>
  What \<^verbatim>\<open>requests.get(url).json()\<close> decodes to. A Python dict is kept as an association
  list: its order is the (arbitrary) iteration order of the dict.
\<close>

datatype json =
    JNull
  | JBool bool
  | JNum real
  | JStr string
  | JList "json list"
  | JDict "(string \<times> json) list"

text \<open>
  The remote store is a parameter: the decoded body for each URL, or \<open>None\<close> when the
  request itself raises.
\<close>

type_synonym remote = "string \<Rightarrow> json option"

definition base_url :: string where
  "base_url = ''https://sudepmonitor.firebaseio.com/''"

definition download_json_data_from :: "remote \<Rightarrow> string \<Rightarrow> py_error + json" where
  "download_json_data_from rem url =
     (case rem url of
        None \<Rightarrow> Inl ConnectionError
      | Some json_data \<Rightarrow> if json_data = JNull then Inr (JDict []) else Inr json_data)"

text \<open>Sequencing: the first exception raised ends the computation.\<close>

definition py_bind :: "py_error + 'a \<Rightarrow> ('a \<Rightarrow> py_error + 'b) \<Rightarrow> py_error + 'b" where
  "py_bind m f = (case m of Inl e \<Rightarrow> Inl e | Inr v \<Rightarrow> f v)"

text \<open>
  \<^verbatim>\<open>d[k]\<close>, \<^verbatim>\<open>del d[k]\<close>, \<^verbatim>\<open>d.keys()\<close>, \<^verbatim>\<open>k in d\<close> and \<^verbatim>\<open>d[k] = v\<close> with a string
  key \<open>k\<close>. \<^verbatim>\<open>k in d\<close> is evaluated by the code only after a subscription \<^verbatim>\<open>d[...]\<close> has
  succeeded, that is on a dict.
\<close>

fun py_getitem :: "json \<Rightarrow> string \<Rightarrow> py_error + json" where
  "py_getitem (JDict kvs) k = (case map_of kvs k of None \<Rightarrow> Inl KeyError | Some v \<Rightarrow> Inr v)"
| "py_getitem _ k = Inl TypeError"

fun py_delitem :: "json \<Rightarrow> string \<Rightarrow> py_error + json" where
  "py_delitem (JDict kvs) k =
     (if k \<in> fst ` set kvs then Inr (JDict (filter (\<lambda>kv. fst kv \<noteq> k) kvs)) else Inl KeyError)"
| "py_delitem _ k = Inl TypeError"

fun py_keys :: "json \<Rightarrow> py_error + string list" where
  "py_keys (JDict kvs) = Inr (map fst kvs)"
| "py_keys _ = Inl TypeError"

fun py_in :: "string \<Rightarrow> json \<Rightarrow> py_error + bool" where
  "py_in k (JDict kvs) = Inr (k \<in> fst ` set kvs)"
| "py_in k _ = Inl TypeError"

fun dict_set :: "(string \<times> 'v) list \<Rightarrow> string \<Rightarrow> 'v \<Rightarrow> (string \<times> 'v) list" where
  "dict_set [] k v = [(k, v)]"
| "dict_set (kv # kvs) k v = (if fst kv = k then (k, v) # kvs else kv # dict_set kvs k v)"

section \<open>Date tokens\<close>

text \<open>
  \<^verbatim>\<open>x[a:b]\<close> for constants \<open>0 \<le> a \<le> b\<close>: a slice is clipped to the string, it never raises.
\<close>

definition slice :: "nat \<Rightarrow> nat \<Rightarrow> 'a list \<Rightarrow> 'a list" where
  "slice a b x = take (b - a) (drop a x)"

text \<open>
  The sort key of \<^verbatim>\<open>_date_sort\<close>:
  \<^verbatim>\<open>lambda x: (x[4:6],x[2:4],x[0:2],x[6:8],x[8:10],x[10:12])\<close>.
  Python compares tuples lexicographically and byte strings lexicographically by byte; these
  are the orders of \<open>Product_Lexorder\<close>, \<open>List_Lexorder\<close> and \<open>Char_ord\<close>.
\<close>

type_synonym date_key_t = "string \<times> string \<times> string \<times> string \<times> string \<times> string"

definition date_key :: "string \<Rightarrow> date_key_t" where
  "date_key x = (slice 4 6 x, slice 2 4 x, slice 0 2 x, slice 6 8 x, slice 8 10 x, slice 10 12 x)"

text \<open>
  \<^verbatim>\<open>dates.sort(key=...)\<close> is a stable sort, and so is \<open>sort_key\<close>; a stable sort by a key is
  determined by the key.
\<close>

definition date_sort :: "string list \<Rightarrow> string list" where
  "date_sort dates = sort_key date_key dates"

text \<open>The comparison of two tokens that the sort makes.\<close>

definition date_le :: "string \<Rightarrow> string \<Rightarrow> bool" where
  "date_le a b \<longleftrightarrow> date_key a \<le> date_key b"

text \<open>
  \<^verbatim>\<open>_lex\<close>: the pairs of characters of a token, each followed by its separator.
\<close>

definition lex_characters :: "string list" where
  "lex_characters = [''.'', ''.'', '' '', '':'', '':'', '''']"

definition lex :: "string \<Rightarrow> string" where
  "lex date =
     foldl (\<lambda>lexed_date iChar.
              lexed_date @ (slice (iChar * 2) (iChar * 2 + 2) date @ lex_characters ! iChar))
       [] [0 ..< length lex_characters]"

definition lex_multiple :: "json \<Rightarrow> py_error + string list" where
  "lex_multiple dates =
     (case py_keys dates of
        Inl e \<Rightarrow> Inl e
      | Inr ks \<Rightarrow> Inr (date_sort (map lex ks)))"

definition get_session_dates_for :: "remote \<Rightarrow> string \<Rightarrow> bool \<Rightarrow> py_error + string list" where
  "get_session_dates_for rem user readable =
     (case download_json_data_from rem (base_url @ user @ ''.json?shallow=true'') of
        Inl e \<Rightarrow> Inl e
      | Inr user_dates \<Rightarrow>
          (case py_delitem user_dates ''MetaData'' of
             Inl e \<Rightarrow> Inl e
           | Inr user_dates' \<Rightarrow>
               if readable then lex_multiple user_dates'
               else (case py_keys user_dates' of
                       Inl e \<Rightarrow> Inl e
                     | Inr ks \<Rightarrow> Inr (date_sort ks))))"

subsection \<open>The chronological order as the specification words it\<close>

text \<open>
  The specification's token is exactly twelve digits \<^verbatim>\<open>ddMMyyhhmmss\<close>: the day at positions 0
  and 1, then month, year, hour, minute and second, two digits each. \<open>spec_chrono\<close> reads
  the six fields as numbers and puts them in the order year, month, day, hour, minute, second;
  tuples of numbers are compared lexicographically. These follow the specification, not the
  code, and are compared with the key of \<^verbatim>\<open>_date_sort\<close> below.
\<close>

definition is_digit :: "char \<Rightarrow> bool" where
  "is_digit c \<longleftrightarrow> CHR ''0'' \<le> c \<and> c \<le> CHR ''9''"

definition is_token :: "string \<Rightarrow> bool" where
  "is_token t \<longleftrightarrow> length t = 12 \<and> list_all is_digit t"

definition digit_val :: "char \<Rightarrow> nat" where
  "digit_val c = of_char c - of_char CHR ''0''"

definition two_digits :: "string \<Rightarrow> nat \<Rightarrow> nat" where
  "two_digits t k = 10 * digit_val (t ! k) + digit_val (t ! (k + 1))"

definition spec_chrono :: "string \<Rightarrow> nat \<times> nat \<times> nat \<times> nat \<times> nat \<times> nat" where
  "spec_chrono t =
     (let day = two_digits t 0; month = two_digits t 2; year = two_digits t 4;
          hour = two_digits t 6; minute = two_digits t 8; second = two_digits t 10
      in (year, month, day, hour, minute, second))"

section \<open>The data model: Profile, Session, User\<close>

text \<open>
  Attributes hold whatever the decoded JSON holds, so they have type \<open>json\<close>;
  \<^verbatim>\<open>np.array(v)\<close> is kept as the list \<open>v\<close> it is built from.
\<close>

record Profile =
  dob :: json
  gender :: json
  height :: json
  weight :: json

definition get_individual_profile_for :: "remote \<Rightarrow> string \<Rightarrow> py_error + json" where
  "get_individual_profile_for rem user =
     py_bind (download_json_data_from rem (base_url @ user @ ''/MetaData/Profile.json''))
       (\<lambda>prof. if prof = JNull then Inr (JDict []) else Inr prof)"

fun collect_profiles ::
  "remote \<Rightarrow> string list \<Rightarrow> (string \<times> json) list \<Rightarrow> py_error + (string \<times> json) list" where
  "collect_profiles rem [] profiles = Inr profiles"
| "collect_profiles rem (user # users) profiles =
     py_bind (get_individual_profile_for rem user)
       (\<lambda>prof. collect_profiles rem users (dict_set profiles user prof))"

text \<open>
  \<^verbatim>\<open>get_profile_for\<close> called with a string, as \<^verbatim>\<open>Profile.__init__\<close> calls it; \<open>ul\<close> is the
  global \<^verbatim>\<open>user_list\<close> (its keys), read when the string is \<^verbatim>\<open>'all'\<close>.
\<close>

definition get_profile_for :: "remote \<Rightarrow> string list \<Rightarrow> string \<Rightarrow> py_error + json" where
  "get_profile_for rem ul user =
     (if user = ''all'' then py_bind (collect_profiles rem ul []) (\<lambda>profiles. Inr (JDict profiles))
      else get_individual_profile_for rem user)"

definition Profile_init :: "remote \<Rightarrow> string list \<Rightarrow> string \<Rightarrow> py_error + Profile" where
  "Profile_init rem ul name =
     py_bind (get_profile_for rem ul name) (\<lambda>prof.
     py_bind (py_getitem prof ''Date of Birth'') (\<lambda>d.
     py_bind (py_getitem prof ''Gender'') (\<lambda>g.
     py_bind (py_getitem prof ''Height (m)'') (\<lambda>h.
     py_bind (py_getitem prof ''Weight (kg)'') (\<lambda>w.
     Inr \<lparr>dob = d, gender = g, height = h, weight = w\<rparr>)))))"

definition get_events_for :: "remote \<Rightarrow> string \<Rightarrow> bool \<Rightarrow> py_error + json" where
  "get_events_for rem user event_type =
     py_bind (download_json_data_from rem
                (base_url @ user @ ''/MetaData/Events.json''
                   @ (if \<not> event_type then ''?shallow=true'' else [])))
       (\<lambda>user_events.
          if event_type then Inr user_events
          else py_bind (py_keys user_events) (\<lambda>ks. Inr (JList (map JStr ks))))"

record Session =
  accel_sampling_freq :: json
  duration :: json
  accel_data :: json
  heart_data :: json

definition convert_accel_data_to_array_for :: "json \<Rightarrow> py_error + json" where
  "convert_accel_data_to_array_for session =
     py_bind (py_in ''Accelerometer data'' session) (\<lambda>present.
       if present then
         py_bind (py_getitem session ''Accelerometer data'') (\<lambda>accel.
         py_bind (py_getitem accel ''x'') (\<lambda>ax.
         py_bind (py_getitem accel ''y'') (\<lambda>ay.
         py_bind (py_getitem accel ''z'') (\<lambda>az.
         Inr (JDict [(''x'', ax), (''y'', ay), (''z'', az)])))))
       else Inr (JStr ''Empty''))"

definition convert_heart_data_to_array_for :: "json \<Rightarrow> py_error + json" where
  "convert_heart_data_to_array_for session =
     py_bind (py_in ''Heartrate data'' session) (\<lambda>present.
       if present then
         py_bind (py_getitem session ''Heartrate data'') (\<lambda>hdata.
         py_bind (py_getitem hdata ''Times'') (\<lambda>ts.
         py_bind (py_getitem hdata ''Heartrate'') (\<lambda>hr.
         Inr (JDict [(''times'', ts), (''heart_rate'', hr)]))))
       else Inr (JStr ''Empty''))"

definition Session_init :: "json \<Rightarrow> py_error + Session" where
  "Session_init session =
     py_bind (py_getitem session ''Accelerometer sampling frequency'') (\<lambda>f.
     py_bind (py_getitem session ''Duration'') (\<lambda>d.
     py_bind (convert_accel_data_to_array_for session) (\<lambda>a.
     py_bind (convert_heart_data_to_array_for session) (\<lambda>h.
     Inr \<lparr>accel_sampling_freq = f, duration = d, accel_data = a, heart_data = h\<rparr>))))"

definition get_single :: "remote \<Rightarrow> string \<Rightarrow> string \<Rightarrow> py_error + Session" where
  "get_single rem session for_user =
     py_bind (download_json_data_from rem (base_url @ for_user @ ''/'' @ session @ ''.json''))
       Session_init"

fun collect_sessions ::
  "remote \<Rightarrow> string \<Rightarrow> string list \<Rightarrow> (string \<times> Session) list
     \<Rightarrow> py_error + (string \<times> Session) list" where
  "collect_sessions rem user [] user_data = Inr user_data"
| "collect_sessions rem user (session # rest) user_data =
     py_bind (get_single rem session user)
       (\<lambda>v. collect_sessions rem user rest (dict_set user_data session v))"

text \<open>\<^verbatim>\<open>get_session_for(user)\<close> with \<^verbatim>\<open>sessions\<close> left at \<^verbatim>\<open>'all'\<close>, as \<^verbatim>\<open>User.__init__\<close> calls it.\<close>

definition get_session_for :: "remote \<Rightarrow> string \<Rightarrow> py_error + (string \<times> Session) list" where
  "get_session_for rem user =
     py_bind (get_session_dates_for rem user False)
       (\<lambda>session_dates. collect_sessions rem user session_dates [])"

record User =
  user_name :: string
  profile :: Profile
  events :: json
  sessions :: "(string \<times> Session) list"
  dates :: "string list"

definition User_init :: "remote \<Rightarrow> string list \<Rightarrow> string \<Rightarrow> py_error + User" where
  "User_init rem ul name =
     py_bind (Profile_init rem ul name) (\<lambda>p.
     py_bind (get_events_for rem name True) (\<lambda>e.
     py_bind (get_session_for rem name) (\<lambda>s.
     py_bind (get_session_dates_for rem name False) (\<lambda>d.
     Inr \<lparr>user_name = name, profile = p, events = e, sessions = s, dates = d\<rparr>))))"

section \<open>The local cache\<close>

text \<open>
  The durable state is the directory \<^verbatim>\<open>Users\<close>: \<open>None\<close> while it does not exist, otherwise
  its entries, file name to content. A path \<^verbatim>\<open>'Users/' + f\<close> is the entry \<open>f\<close>: user names
  are keys of the remote store and hold no path separator. \<^verbatim>\<open>cPickle\<close> is a parameter, the
  pair \<open>dumps\<close> and \<open>loads\<close>, over any type \<open>'b\<close> of file contents; \<open>loads\<close> gives \<open>None\<close>
  where unpickling raises.
\<close>

type_synonym 'b users_dir = "(string \<rightharpoonup> 'b) option"

definition look_for_and_create_users_folder :: "'b users_dir \<Rightarrow> 'b users_dir" where
  "look_for_and_create_users_folder fs = (case fs of None \<Rightarrow> Some Map.empty | Some d \<Rightarrow> Some d)"

definition is_file_in_directory :: "'b users_dir \<Rightarrow> string \<Rightarrow> py_error + bool" where
  "is_file_in_directory fs name =
     (case fs of None \<Rightarrow> Inl OSError | Some d \<Rightarrow> Inr (d (name @ ''.pkl'') \<noteq> None))"

definition open_wb_dump :: "'b users_dir \<Rightarrow> string \<Rightarrow> 'b \<Rightarrow> py_error + 'b users_dir" where
  "open_wb_dump fs file_name content =
     (case fs of None \<Rightarrow> Inl IOError | Some d \<Rightarrow> Inr (Some (d(file_name \<mapsto> content))))"

text \<open>\<^verbatim>\<open>save\<close> returns nothing; the model returns the directory it leaves.\<close>

definition save :: "(User \<Rightarrow> 'b) \<Rightarrow> 'b users_dir \<Rightarrow> User \<Rightarrow> bool \<Rightarrow> py_error + 'b users_dir" where
  "save dumps fs user update =
     (let fs1 = look_for_and_create_users_folder fs;
          file_name = user_name user @ ''.pkl''
      in py_bind (if update = False then is_file_in_directory fs1 (user_name user) else Inr False)
           (\<lambda>skip. if skip then Inr fs1 else open_wb_dump fs1 file_name (dumps user)))"

definition load :: "('b \<Rightarrow> User option) \<Rightarrow> 'b users_dir \<Rightarrow> string \<Rightarrow> py_error + User" where
  "load loads fs name =
     (case fs of
        None \<Rightarrow> Inl IOError
      | Some d \<Rightarrow>
          (case d (name @ ''.pkl'') of
             None \<Rightarrow> Inl IOError
           | Some content \<Rightarrow>
               (case loads content of None \<Rightarrow> Inl UnpicklingError | Some user \<Rightarrow> Inr user)))"

text \<open>
  \<^verbatim>\<open>get_user\<close> returns a \<^verbatim>\<open>User\<close>, or \<^verbatim>\<open>None\<close> after printing that the user does not exist;
  the model returns that value (or the exception) together with the directory it leaves.
\<close>

definition get_user ::
  "('b \<Rightarrow> User option) \<Rightarrow> (User \<Rightarrow> 'b) \<Rightarrow> remote \<Rightarrow> string list \<Rightarrow> 'b users_dir \<Rightarrow> string \<Rightarrow> bool
     \<Rightarrow> (py_error + User option) \<times> 'b users_dir" where
  "get_user loads dumps rem ul fs name reload =
     (let fs1 = look_for_and_create_users_folder fs
      in case is_file_in_directory fs1 name of
           Inl e \<Rightarrow> (Inl e, fs1)
         | Inr cached \<Rightarrow>
             if cached \<and> \<not> reload then
               (py_bind (load loads fs1 name) (\<lambda>user. Inr (Some user)), fs1)
             else if name \<in> set ul then
               (case User_init rem ul name of
                  Inl e \<Rightarrow> (Inl e, fs1)
                | Inr user \<Rightarrow>
                    (case save dumps fs1 user True of
                       Inl e \<Rightarrow> (Inl e, fs1)
                     | Inr fs2 \<Rightarrow> (Inr (Some user), fs2)))
             else (Inr None, fs1))"

section \<open>Windowed statistics\<close>

text \<open>
  A one-dimensional array is a list, a two-dimensional array the list of its rows. Floating
  point numbers are taken as reals and a window size as a natural number. \<^verbatim>\<open>np.mean\<close>,
  \<^verbatim>\<open>np.var\<close> and \<^verbatim>\<open>np.std\<close> are called with \<^verbatim>\<open>ddof\<close> left at \<open>0\<close>; on an empty array they
  give NaN, which the model does not have, so results are meant for windows of at least one
  sample.
\<close>

definition np_mean :: "real list \<Rightarrow> real" where
  "np_mean a = sum_list a / real (length a)"

definition np_var :: "real list \<Rightarrow> real" where
  "np_var a = np_mean (map (\<lambda>v. \<bar>v - np_mean a\<bar>\<^sup>2) a)"

definition np_std :: "real list \<Rightarrow> real" where
  "np_std a = sqrt (np_var a)"

text \<open>\<^verbatim>\<open>np.diff\<close> of a one-dimensional array: \<^verbatim>\<open>a[1:] - a[:-1]\<close>.\<close>

definition np_diff :: "real list \<Rightarrow> real list" where
  "np_diff a = map2 (\<lambda>u v. u - v) (drop 1 a) (butlast a)"

text \<open>
  \<^verbatim>\<open>a[lo:hi]\<close> on the first axis with integer bounds: a negative bound counts from the end,
  and both are clipped to the array.
\<close>

definition py_slice :: "int \<Rightarrow> int \<Rightarrow> 'a list \<Rightarrow> 'a list" where
  "py_slice lo hi a =
     (let len = int (length a);
          lo' = (if lo < 0 then max (lo + len) 0 else min lo len);
          hi' = (if hi < 0 then max (hi + len) 0 else min hi len)
      in take (nat (hi' - lo')) (drop (nat lo') a))"

text \<open>
  \<^verbatim>\<open>np.sum(np.mgrid[0:n,0:w],axis=0)\<close>: \<open>n\<close> rows and \<open>w\<close> columns, entry \<open>i + j\<close> in row
  \<open>i\<close> and column \<open>j\<close>. \<^verbatim>\<open>np.mgrid\<close> allocates an array of shape \<open>(2, n, w)\<close>, so a negative
  \<open>n\<close> raises \<^verbatim>\<open>ValueError\<close> (negative dimensions are not allowed), while \<open>n = 0\<close> gives an
  array without rows.
\<close>

definition mgrid_sum :: "int \<Rightarrow> nat \<Rightarrow> py_error + nat list list" where
  "mgrid_sum n w =
     (if n < 0 then Inl ValueError
      else Inr (map (\<lambda>i. map (\<lambda>j. i + j) [0 ..< w]) [0 ..< nat n]))"

text \<open>\<^verbatim>\<open>np.transpose\<close> of an array of \<open>c\<close> columns: \<open>c\<close> rows, one per column.\<close>

definition np_transpose :: "nat \<Rightarrow> 'a list list \<Rightarrow> 'a list list" where
  "np_transpose c m = map (\<lambda>j. map (\<lambda>row. row ! j) m) [0 ..< c]"

text \<open>
  \<^verbatim>\<open>signal[indices]\<close> for an index array. The indices built below are all within the signal
  (lemma \<open>mgrid_sum_in_range\<close>), so no \<^verbatim>\<open>IndexError\<close> arises.
\<close>

definition take_indices :: "'a list \<Rightarrow> nat list list \<Rightarrow> 'a list list" where
  "take_indices signal indices = map (map (\<lambda>k. signal ! k)) indices"

subsection \<open>\<^verbatim>\<open>sudep_HRV.SD\<close> and \<^verbatim>\<open>sudep_HRV.CSI\<close>\<close>

text \<open>The first lines of \<^verbatim>\<open>SD\<close>: the array \<^verbatim>\<open>windowed_beats\<close>, one window per row.\<close>

definition windowed_beats :: "real list \<Rightarrow> nat \<Rightarrow> py_error + real list list" where
  "windowed_beats beats num_points =
     (let signal_length = int (length beats);
          n = signal_length - int num_points + 1
      in py_bind (mgrid_sum n num_points) (\<lambda>indices. Inr (take_indices beats indices)))"

text \<open>
  \<^verbatim>\<open>(x - y) + mean\<close> and \<^verbatim>\<open>(x + y) - mean\<close>, where \<^verbatim>\<open>mean\<close> is a column (one value per row)
  broadcast along the rows.
\<close>

definition rows_sub_plus :: "real list list \<Rightarrow> real list list \<Rightarrow> real list \<Rightarrow> real list list" where
  "rows_sub_plus x y mean =
     map2 (\<lambda>row m. map (\<lambda>v. v + m) row) (map2 (map2 (\<lambda>u v. u - v)) x y) mean"

definition rows_add_minus :: "real list list \<Rightarrow> real list list \<Rightarrow> real list \<Rightarrow> real list list" where
  "rows_add_minus x y mean =
     map2 (\<lambda>row m. map (\<lambda>v. v - m) row) (map2 (map2 (\<lambda>u v. u + v)) x y) mean"

definition SD :: "real list \<Rightarrow> nat \<Rightarrow> py_error + real list \<times> real list" where
  "SD beats num_points =
     (let signal_length = int (length beats);
          n = signal_length - int num_points + 1
      in py_bind (windowed_beats beats num_points) (\<lambda>wb.
           let x = py_slice 0 (n - 1) wb;
               y = py_slice 1 n wb;
               meanx = map np_mean x;
               meany = map np_mean y;
               SD1 = map (\<lambda>row. np_std row / sqrt 2)
                       (rows_sub_plus x y (map2 (\<lambda>u v. u - v) meany meanx));
               SD2 = map (\<lambda>row. np_std row / sqrt 2)
                       (rows_add_minus x y (map2 (\<lambda>u v. u + v) meanx meany))
           in Inr (SD1, SD2)))"

text \<open>
  The two masked assignments of \<^verbatim>\<open>CSI\<close>, in their order:
  \<^verbatim>\<open>SD2[SD1 == 0] = 1\<close>, then \<^verbatim>\<open>SD1[SD1 == 0] = 1\<close>.
\<close>

definition zero_clamp :: "real list \<times> real list \<Rightarrow> real list \<times> real list" where
  "zero_clamp sd =
     (let SD1 = fst sd; SD2 = snd sd;
          SD2' = map2 (\<lambda>s2 s1. if s1 = 0 then 1 else s2) SD2 SD1;
          SD1' = map (\<lambda>s1. if s1 = 0 then 1 else s1) SD1
      in (SD1', SD2'))"

text \<open>
  \<^verbatim>\<open>CSI\<close>; its first argument \<open>heart\<close> is the array of beat intervals, or with
  \<^verbatim>\<open>from_watch\<close> the array \<^verbatim>\<open>heart_data['heart_rate']\<close>. A heart rate of \<open>0\<close> (an infinite
  interval in \<^verbatim>\<open>numpy\<close>) is outside the model.
\<close>

definition CSI :: "real list \<Rightarrow> nat \<Rightarrow> bool \<Rightarrow> py_error + real list" where
  "CSI heart num_points from_watch =
     (let beats = (if from_watch then map (\<lambda>h. 60 / h) heart else heart)
      in py_bind (SD beats num_points) (\<lambda>sd.
           let sd' = zero_clamp sd
           in Inr (map2 (\<lambda>s2 s1. s2 / s1) (snd sd') (fst sd'))))"

subsection \<open>\<^verbatim>\<open>sudep_pdf.windowed_sample_variance\<close> and \<^verbatim>\<open>sudep_pdf.mark_high_var\<close>\<close>

text \<open>
  \<^verbatim>\<open>signal[indices]\<close> in \<^verbatim>\<open>windowed_sample_variance\<close>, where \<^verbatim>\<open>indices\<close> is the transposed
  grid: \<open>window\<close> rows, one window per column.
\<close>

definition windowed_signal :: "real list \<Rightarrow> nat \<Rightarrow> py_error + real list list" where
  "windowed_signal signal window =
     (let n = int (length signal) - int window + 1
      in py_bind (mgrid_sum n window) (\<lambda>grid.
           let indices = np_transpose window grid
           in Inr (take_indices signal indices)))"

text \<open>
  \<^verbatim>\<open>np.var(np.diff(signal[indices]),axis=0)\<close>: \<^verbatim>\<open>np.diff\<close> runs along the last axis, that is
  along each row, which leaves \<open>n - 1\<close> columns (none when \<open>n = 0\<close>); the variance is taken
  down each of them.
\<close>

definition windowed_sample_variance :: "real list \<Rightarrow> nat \<Rightarrow> py_error + real list" where
  "windowed_sample_variance signal window =
     (let n = int (length signal) - int window + 1
      in py_bind (windowed_signal signal window) (\<lambda>ws.
           let d = map np_diff ws
           in Inr (map np_var (np_transpose (nat n - 1) d))))"

definition find_high_variance :: "real list \<Rightarrow> real \<Rightarrow> bool list" where
  "find_high_variance var THRESH = map (\<lambda>v. v > THRESH) var"

text \<open>
  The mask \<^verbatim>\<open>is_above_thresh\<close> of \<^verbatim>\<open>mark_high_var\<close>, for a threshold \<open>t\<close> (the code leaves
  \<^verbatim>\<open>THRESH\<close> at \<open>1\<close>): \<^verbatim>\<open>np.zeros(window-1)\<close> raises \<^verbatim>\<open>ValueError\<close> for a negative size;
  \<^verbatim>\<open>np.append\<close> gives an array of floats, \<^verbatim>\<open>astype(bool)\<close> tests them against zero.
\<close>

definition is_above_thresh :: "real list \<Rightarrow> nat \<Rightarrow> real \<Rightarrow> py_error + bool list" where
  "is_above_thresh signal window t =
     py_bind (windowed_sample_variance signal window) (\<lambda>var.
       if int window - 1 < 0 then Inl ValueError
       else
         (let buffer = replicate (window - 1) (0 :: real);
              flags = map (\<lambda>b. if b then 1 else 0) (find_high_variance var t)
          in Inr (map (\<lambda>v. v \<noteq> 0) (buffer @ flags))))"

definition mark_high_var :: "real list \<Rightarrow> nat \<Rightarrow> py_error + bool list" where
  "mark_high_var signal window = is_above_thresh signal window 1"

subsection \<open>The dispersion formulas as the specification words them\<close>

text \<open>
  The specification's standard deviation with \<open>ddof\<close> delta degrees of freedom, and its
  \<open>SD1\<^sub>i\<close> and \<open>SD2\<^sub>i\<close>: \<open>x\<^sub>i\<close> is the window of \<open>w\<close> beats from index \<open>i\<close>, \<open>y\<^sub>i\<close> the window
  from index \<open>i + 1\<close>. These follow the specification, not the code, and are compared with
  \<open>SD\<close> below.
\<close>

definition spec_std :: "nat \<Rightarrow> real list \<Rightarrow> real" where
  "spec_std ddof a =
     sqrt (sum_list (map (\<lambda>v. \<bar>v - np_mean a\<bar>\<^sup>2) a) / (real (length a) - real ddof))"

definition spec_SD1 :: "nat \<Rightarrow> real list \<Rightarrow> nat \<Rightarrow> nat \<Rightarrow> real" where
  "spec_SD1 ddof beats w i =
     (let x_i = take w (drop i beats);
          y_i = take w (drop (i + 1) beats);
          meanx_i = np_mean x_i;
          meany_i = np_mean y_i
      in spec_std ddof (map2 (\<lambda>u v. (u - v) + (meany_i - meanx_i)) x_i y_i) / sqrt 2)"

definition spec_SD2 :: "nat \<Rightarrow> real list \<Rightarrow> nat \<Rightarrow> nat \<Rightarrow> real" where
  "spec_SD2 ddof beats w i =
     (let x_i = take w (drop i beats);
          y_i = take w (drop (i + 1) beats);
          meanx_i = np_mean x_i;
          meany_i = np_mean y_i
      in spec_std ddof (map2 (\<lambda>u v. (u + v) - (meanx_i + meany_i)) x_i y_i) / sqrt 2)"

section \<open>Example inputs\<close>

text \<open>
  A user record, and a remote store that answers the three reads of \<^verbatim>\<open>User('SM8')\<close> that
  come first: the profile (the argument), no events, and a listing with no session.
\<close>

definition test_user :: User where
  "test_user =
     \<lparr>user_name = ''SM8'',
      profile = \<lparr>dob = JStr ''01.01.1990'', gender = JStr ''F'',
                 height = JNum 1.7, weight = JNum 60\<rparr>,
      events = JDict [], sessions = [], dates = []\<rparr>"

definition sm8_remote :: "json \<Rightarrow> remote" where
  "sm8_remote prof =
     [base_url @ ''SM8/MetaData/Profile.json'' \<mapsto> prof,
      base_url @ ''SM8/MetaData/Events.json'' \<mapsto> JNull,
      base_url @ ''SM8.json?shallow=true'' \<mapsto> JDict [(''MetaData'', JBool True)]]"

section \<open>Properties of the date order and of the session-date listing\<close>

lemma date_key_inj:
  "length a = 12 \<Longrightarrow> length b = 12 \<Longrightarrow> date_key a = date_key b \<Longrightarrow> a = b"
  by (auto simp: date_key_def slice_def length_Suc_conv eval_nat_numeral)

lemma sorted_date_sort: "sorted (map date_key (date_sort L))"
  by (simp add: date_sort_def)

lemma sorted_wrt_date_sort: "sorted_wrt date_le (date_sort L)"
  using sorted_date_sort [of L] by (simp add: sorted_map date_le_def [abs_def])

lemma date_sort_idem: "date_sort (date_sort L) = date_sort L"
  unfolding date_sort_def by (rule sort_key_id_if_sorted) simp

lemma get_session_dates_for_dict:
  assumes "download_json_data_from rem (base_url @ user @ ''.json?shallow=true'') = Inr (JDict kvs)"
  shows "get_session_dates_for rem user readable =
     (if ''MetaData'' \<in> fst ` set kvs
      then Inr (date_sort (map (if readable then lex else id)
                   (map fst (filter (\<lambda>kv. fst kv \<noteq> ''MetaData'') kvs))))
      else Inl KeyError)"
  using assms by (simp add: get_session_dates_for_def lex_multiple_def)

lemma get_session_dates_for_Inr:
  assumes "get_session_dates_for rem user readable = Inr ds"
  shows "\<exists>kvs. download_json_data_from rem (base_url @ user @ ''.json?shallow=true'') = Inr (JDict kvs)
            \<and> ''MetaData'' \<in> fst ` set kvs"
proof -
  from assms obtain j
    where j: "download_json_data_from rem (base_url @ user @ ''.json?shallow=true'') = Inr j"
    by (auto simp: get_session_dates_for_def split: sum.splits)
  with assms obtain j' where "py_delitem j ''MetaData'' = Inr j'"
    by (auto simp: get_session_dates_for_def split: sum.splits)
  then obtain kvs where "j = JDict kvs" "''MetaData'' \<in> fst ` set kvs"
    by (cases j) (auto split: if_splits)
  with j show ?thesis by blast
qed

lemma is_digit_val:
  assumes "is_digit c"
  shows "of_char c = digit_val c + (48::nat)" and "digit_val c < 10"
proof -
  from assms have b: "(48::nat) \<le> of_char c" "of_char c \<le> (57::nat)"
    by (simp_all add: is_digit_def less_eq_char_def)
  from b show "of_char c = digit_val c + (48::nat)"
    by (simp add: digit_val_def)
  from b show "digit_val c < 10"
    by (simp add: digit_val_def)
qed

lemma digit_cmp:
  assumes "is_digit c" and "is_digit d"
  shows "c < d \<longleftrightarrow> digit_val c < digit_val d"
    and "c = d \<longleftrightarrow> digit_val c = digit_val d"
proof -
  show "c < d \<longleftrightarrow> digit_val c < digit_val d"
    using is_digit_val(1) [OF assms(1)] is_digit_val(1) [OF assms(2)]
    by (simp add: less_char_def)
  have "c = d \<longleftrightarrow> (of_char c :: nat) = of_char d"
    by simp
  then show "c = d \<longleftrightarrow> digit_val c = digit_val d"
    using is_digit_val(1) [OF assms(1)] is_digit_val(1) [OF assms(2)]
    by simp
qed

lemma slice_two:
  assumes "k + 2 \<le> length t"
  shows "slice k (k + 2) t = [t ! k, t ! (k + 1)]"
proof -
  have "take 2 (drop k t) = [drop k t ! 0, drop k t ! 1]"
    using assms by (intro nth_equalityI) (auto simp: less_Suc_eq eval_nat_numeral)
  then show ?thesis
    using assms by (simp add: slice_def)
qed

lemma two_digit_cmp:
  fixes p q r s :: nat
  assumes "q < 10" and "s < 10"
  shows "(p < r \<or> p = r \<and> q < s) \<longleftrightarrow> 10 * p + q < 10 * r + s"
    and "(p < r \<or> p = r \<and> q \<le> s) \<longleftrightarrow> 10 * p + q \<le> 10 * r + s"
  using assms by linarith+

lemma field_cmp:
  assumes "is_token a" and "is_token b" and "k + 2 \<le> 12"
  shows "slice k (k + 2) a < slice k (k + 2) b \<longleftrightarrow> two_digits a k < two_digits b k"
    and "slice k (k + 2) a \<le> slice k (k + 2) b \<longleftrightarrow> two_digits a k \<le> two_digits b k"
proof -
  from assms have la: "k + 2 \<le> length a" and lb: "k + 2 \<le> length b"
    by (simp_all add: is_token_def)
  from assms have da: "is_digit (a ! k)" "is_digit (a ! (k + 1))"
    and db: "is_digit (b ! k)" "is_digit (b ! (k + 1))"
    by (simp_all add: is_token_def list_all_length)
  note v = is_digit_val(2) [OF da(2)] is_digit_val(2) [OF db(2)]
  note c = digit_cmp [OF da(1) db(1)] digit_cmp [OF da(2) db(2)]
  have "slice k (k + 2) a < slice k (k + 2) b
      \<longleftrightarrow> a ! k < b ! k \<or> a ! k = b ! k \<and> a ! (k + 1) < b ! (k + 1)"
    unfolding slice_two [OF la] slice_two [OF lb] by simp
  also have "\<dots> \<longleftrightarrow> digit_val (a ! k) < digit_val (b ! k)
      \<or> digit_val (a ! k) = digit_val (b ! k) \<and> digit_val (a ! (k + 1)) < digit_val (b ! (k + 1))"
    by (simp only: c)
  also have "\<dots> \<longleftrightarrow> two_digits a k < two_digits b k"
    unfolding two_digits_def by (rule two_digit_cmp(1) [OF v])
  finally show "slice k (k + 2) a < slice k (k + 2) b \<longleftrightarrow> two_digits a k < two_digits b k" .
  have "slice k (k + 2) a \<le> slice k (k + 2) b
      \<longleftrightarrow> a ! k < b ! k \<or> a ! k = b ! k \<and> (a ! (k + 1) < b ! (k + 1) \<or> a ! (k + 1) = b ! (k + 1))"
    unfolding slice_two [OF la] slice_two [OF lb] by (auto simp add: le_less)
  also have "\<dots> \<longleftrightarrow> digit_val (a ! k) < digit_val (b ! k)
      \<or> digit_val (a ! k) = digit_val (b ! k) \<and> digit_val (a ! (k + 1)) \<le> digit_val (b ! (k + 1))"
    by (simp only: c le_less)
  also have "\<dots> \<longleftrightarrow> two_digits a k \<le> two_digits b k"
    unfolding two_digits_def by (rule two_digit_cmp(2) [OF v])
  finally show "slice k (k + 2) a \<le> slice k (k + 2) b \<longleftrightarrow> two_digits a k \<le> two_digits b k" .
qed

lemma date_le_chrono:
  assumes "is_token a" and "is_token b"
  shows "date_le a b \<longleftrightarrow> spec_chrono a \<le> spec_chrono b"
proof -
  have f0: "slice 0 2 a < slice 0 2 b \<longleftrightarrow> two_digits a 0 < two_digits b 0"
    "slice 0 2 a \<le> slice 0 2 b \<longleftrightarrow> two_digits a 0 \<le> two_digits b 0"
    using field_cmp [OF assms, of 0] by (simp_all add: numeral_2_eq_2)
  have f2: "slice 2 4 a < slice 2 4 b \<longleftrightarrow> two_digits a 2 < two_digits b 2"
    "slice 2 4 a \<le> slice 2 4 b \<longleftrightarrow> two_digits a 2 \<le> two_digits b 2"
    using field_cmp [OF assms, of 2] by simp_all
  have f4: "slice 4 6 a < slice 4 6 b \<longleftrightarrow> two_digits a 4 < two_digits b 4"
    "slice 4 6 a \<le> slice 4 6 b \<longleftrightarrow> two_digits a 4 \<le> two_digits b 4"
    using field_cmp [OF assms, of 4] by simp_all
  have f6: "slice 6 8 a < slice 6 8 b \<longleftrightarrow> two_digits a 6 < two_digits b 6"
    "slice 6 8 a \<le> slice 6 8 b \<longleftrightarrow> two_digits a 6 \<le> two_digits b 6"
    using field_cmp [OF assms, of 6] by simp_all
  have f8: "slice 8 10 a < slice 8 10 b \<longleftrightarrow> two_digits a 8 < two_digits b 8"
    "slice 8 10 a \<le> slice 8 10 b \<longleftrightarrow> two_digits a 8 \<le> two_digits b 8"
    using field_cmp [OF assms, of 8] by simp_all
  have f10: "slice 10 12 a < slice 10 12 b \<longleftrightarrow> two_digits a 10 < two_digits b 10"
    "slice 10 12 a \<le> slice 10 12 b \<longleftrightarrow> two_digits a 10 \<le> two_digits b 10"
    using field_cmp [OF assms, of 10] by simp_all
  show ?thesis
    by (simp add: date_le_def date_key_def spec_chrono_def Let_def f0 f2 f4 f6 f8 f10)
qed

lemma date_sort_chrono:
  assumes "list_all is_token L"
  shows "sorted (map spec_chrono (date_sort L))"
proof -
  have "sorted_wrt date_le (date_sort L)" by (rule sorted_wrt_date_sort)
  moreover have "\<forall>t \<in> set (date_sort L). is_token t"
    using assms by (simp add: date_sort_def list_all_iff)
  ultimately have "sorted_wrt (\<lambda>a b. spec_chrono a \<le> spec_chrono b) (date_sort L)"
    by (rule_tac sorted_wrt_mono_rel [where P = date_le]) (auto simp: date_le_chrono)
  then show ?thesis by (simp add: sorted_map)
qed

text \<open>
  Claim C5. On tokens (twelve digits) the comparison that \<^verbatim>\<open>_date_sort\<close> makes is the
  chronological one: it holds exactly when the fields read as numbers in the order year,
  month, day, hour, minute, second compare so, which is not the order of the raw strings. On
  tokens of twelve characters it is antisymmetric; it is transitive and total on all strings;
  the sorted list is ordered by it, is in chronological order when its elements are tokens,
  and has the elements of the input; and sorting is idempotent.
\<close>

theorem date_sort_total_order:
  "(is_token a \<and> is_token b \<longrightarrow> (date_le a b \<longleftrightarrow> spec_chrono a \<le> spec_chrono b))
   \<and> (length a = 12 \<and> length b = 12 \<and> date_le a b \<and> date_le b a \<longrightarrow> a = b)
   \<and> (date_le x y \<and> date_le y z \<longrightarrow> date_le x z)
   \<and> (date_le p q \<or> date_le q p)
   \<and> sorted_wrt date_le (date_sort L)
   \<and> (list_all is_token L \<longrightarrow> sorted (map spec_chrono (date_sort L)))
   \<and> set (date_sort L) = set L \<and> length (date_sort L) = length L
   \<and> date_sort (date_sort L) = date_sort L"
proof -
  have chrono: "is_token a \<and> is_token b \<longrightarrow> (date_le a b \<longleftrightarrow> spec_chrono a \<le> spec_chrono b)"
    using date_le_chrono [of a b] by blast
  have anti: "length a = 12 \<and> length b = 12 \<and> date_le a b \<and> date_le b a \<longrightarrow> a = b"
    using date_key_inj [of a b] by (auto simp: date_le_def)
  have trans: "date_le x y \<and> date_le y z \<longrightarrow> date_le x z"
    by (auto simp: date_le_def)
  have total: "date_le p q \<or> date_le q p"
    unfolding date_le_def by (rule linear)
  have srt: "list_all is_token L \<longrightarrow> sorted (map spec_chrono (date_sort L))"
    using date_sort_chrono [of L] by blast
  have perm: "set (date_sort L) = set L \<and> length (date_sort L) = length L"
    by (simp add: date_sort_def)
  show ?thesis
    using chrono anti trans total sorted_wrt_date_sort srt perm date_sort_idem by blast
qed

text \<open>
  The tokens of 31 December '23, of 2 January '24 (at midnight and at 09:30) and of
  1 February '24: the month decides before the day, against the order of the raw strings.
\<close>

theorem date_sort_total_order_witness:
  "is_token ''020124000000'' \<and> is_token ''010224000000''
   \<and> spec_chrono ''020124000000'' = (24, 1, 2, 0, 0, 0)
   \<and> spec_chrono ''010224000000'' = (24, 2, 1, 0, 0, 0)
   \<and> date_le ''020124000000'' ''010224000000''
   \<and> \<not> date_le ''010224000000'' ''020124000000''
   \<and> \<not> ''020124000000'' \<le> ''010224000000''
   \<and> length ''311223000000'' = 12
   \<and> date_le ''311223000000'' ''311223000000''
   \<and> date_le ''311223000000'' ''020124000000''
   \<and> date_le ''311223000000'' ''010224000000''
   \<and> \<not> ''311223000000'' \<le> ''020124000000''
   \<and> list_all is_token [''010224000000'', ''020124093000'', ''020124000000'', ''311223000000'']
   \<and> date_sort [''010224000000'', ''020124093000'', ''020124000000'', ''311223000000'']
       = [''311223000000'', ''020124000000'', ''020124093000'', ''010224000000'']
   \<and> sorted (map spec_chrono
         [''311223000000'', ''020124000000'', ''020124093000'', ''010224000000''])
   \<and> date_sort (date_sort [''010224000000'', ''020124093000'', ''020124000000'', ''311223000000''])
       = date_sort [''010224000000'', ''020124093000'', ''020124000000'', ''311223000000'']"
proof -
  let ?D = "''311223000000''"
  let ?J = "''020124000000''"
  let ?T = "''020124093000''"
  let ?F = "''010224000000''"
  have tok: "is_token ?J \<and> is_token ?F"
    by (simp add: is_token_def is_digit_def)
  have toks: "list_all is_token [?F, ?T, ?J, ?D]"
    by (simp add: is_token_def is_digit_def)
  have sc: "spec_chrono ?J = (24, 1, 2, 0, 0, 0)" "spec_chrono ?F = (24, 2, 1, 0, 0, 0)"
    by (simp_all add: spec_chrono_def two_digits_def digit_val_def Let_def)
  then have le: "spec_chrono ?J \<le> spec_chrono ?F" "\<not> spec_chrono ?F \<le> spec_chrono ?J"
    by simp_all
  have h1: "length ?D = 12 \<and> length ?D = 12 \<and> date_le ?D ?D \<and> date_le ?D ?D"
    by (simp add: date_le_def)
  have h2: "date_le ?D ?J"
    by (simp add: date_le_def date_key_def slice_def)
  have raw: "\<not> ?J \<le> ?F" "\<not> ?D \<le> ?J"
    by simp_all
  have srt: "date_sort [?F, ?T, ?J, ?D] = [?D, ?J, ?T, ?F]"
    by (simp add: date_sort_def date_key_def slice_def)
  note t1 = date_sort_total_order [of ?J ?F ?D ?J ?F ?D ?J "[?F, ?T, ?J, ?D]"]
  note t2 = date_sort_total_order [of ?F ?J ?D ?J ?F ?D ?J "[?F, ?T, ?J, ?D]"]
  note t3 = date_sort_total_order [of ?D ?D ?D ?J ?F ?D ?J "[?F, ?T, ?J, ?D]"]
  from t1 tok le have a: "date_le ?J ?F" by blast
  from t2 tok le have b: "\<not> date_le ?F ?J" by blast
  from t1 h2 a have c: "date_le ?D ?F" by blast
  from t1 toks have d: "sorted (map spec_chrono (date_sort [?F, ?T, ?J, ?D]))" by blast
  from t1 have e: "date_sort (date_sort [?F, ?T, ?J, ?D]) = date_sort [?F, ?T, ?J, ?D]" by blast
  show ?thesis
    using tok toks sc a b c d e h1 h2 raw t3 unfolding srt by blast
qed

text \<open>
  The call with \<^verbatim>\<open>readable\<close> left at its default \<open>False\<close>: a listing that holds the
  reserved key \<^verbatim>\<open>MetaData\<close> gives a result, and every result is the listing's keys without
  \<^verbatim>\<open>MetaData\<close>, ordered by the date comparison; when the other keys are tokens this is the
  chronological order (lemma \<open>get_session_dates_for_tokens_chronological\<close>).
\<close>

lemma get_session_dates_for_sorted_without_metadata:
  "(download_json_data_from rem (base_url @ user @ ''.json?shallow=true'') = Inr (JDict kvs)
      \<and> ''MetaData'' \<in> fst ` set kvs
    \<longrightarrow> (\<exists>ds. get_session_dates_for rem user False = Inr ds))
   \<and> (get_session_dates_for rem user False = Inr ds
    \<longrightarrow> ''MetaData'' \<notin> set ds \<and> sorted_wrt date_le ds
       \<and> (\<exists>kvs'. download_json_data_from rem (base_url @ user @ ''.json?shallow=true'')
                    = Inr (JDict kvs')
              \<and> set ds = fst ` set kvs' - {''MetaData''}))"
proof (intro conjI impI)
  assume "download_json_data_from rem (base_url @ user @ ''.json?shallow=true'') = Inr (JDict kvs)
      \<and> ''MetaData'' \<in> fst ` set kvs"
  then show "\<exists>ds. get_session_dates_for rem user False = Inr ds"
    by (simp add: get_session_dates_for_dict)
next
  assume r: "get_session_dates_for rem user False = Inr ds"
  then obtain kvs' where
    d: "download_json_data_from rem (base_url @ user @ ''.json?shallow=true'') = Inr (JDict kvs')"
    and m: "''MetaData'' \<in> fst ` set kvs'"
    using get_session_dates_for_Inr by blast
  from r m have ds: "ds = date_sort (map fst (filter (\<lambda>kv. fst kv \<noteq> ''MetaData'') kvs'))"
    by (simp add: get_session_dates_for_dict [OF d])
  show "''MetaData'' \<notin> set ds"
    by (auto simp: ds date_sort_def)
  show "sorted_wrt date_le ds"
    unfolding ds by (rule sorted_wrt_date_sort)
  have "set ds = fst ` set kvs' - {''MetaData''}"
    by (auto simp: ds date_sort_def)
  with d show "\<exists>kvs'. download_json_data_from rem (base_url @ user @ ''.json?shallow=true'')
                    = Inr (JDict kvs')
              \<and> set ds = fst ` set kvs' - {''MetaData''}"
    by blast
qed

lemma get_session_dates_for_sorted_without_metadata_example:
  "get_session_dates_for
     (\<lambda>url. Some (JDict [(''010124000000'', JBool True), (''MetaData'', JBool True),
                         (''311223000000'', JBool True), (''150623120000'', JBool True)]))
     ''SM8'' False
    = Inr [''150623120000'', ''311223000000'', ''010124000000'']
   \<and> ''MetaData'' \<notin> set [''150623120000'', ''311223000000'', ''010124000000'']
   \<and> sorted_wrt date_le [''150623120000'', ''311223000000'', ''010124000000'']"
proof -
  let ?kvs = "[(''010124000000'', JBool True), (''MetaData'', JBool True),
               (''311223000000'', JBool True), (''150623120000'', JBool True)]"
  let ?rem = "\<lambda>url::string. Some (JDict ?kvs)"
  have d: "download_json_data_from ?rem (base_url @ ''SM8'' @ ''.json?shallow=true'') = Inr (JDict ?kvs)
      \<and> ''MetaData'' \<in> fst ` set ?kvs"
    by (simp add: download_json_data_from_def)
  have r: "get_session_dates_for ?rem ''SM8'' False
      = Inr [''150623120000'', ''311223000000'', ''010124000000'']"
    by (simp add: get_session_dates_for_def download_json_data_from_def date_sort_def
        date_key_def slice_def)
  show ?thesis
    using d r
      get_session_dates_for_sorted_without_metadata
        [of ?rem "''SM8''" ?kvs "[''150623120000'', ''311223000000'', ''010124000000'']"]
    by blast
qed

text \<open>
  Claim C10. A listing without the key \<^verbatim>\<open>MetaData\<close> (the empty listing that a
  \<^verbatim>\<open>null\<close> body is turned into included) makes \<^verbatim>\<open>get_session_dates_for\<close> raise
  \<^verbatim>\<open>KeyError\<close>, whatever \<^verbatim>\<open>readable\<close> is; so every call that returns dates had a
  listing with that key.
\<close>

theorem get_session_dates_for_requires_metadata:
  "(download_json_data_from rem (base_url @ user @ ''.json?shallow=true'') = Inr (JDict kvs)
      \<and> ''MetaData'' \<notin> fst ` set kvs
    \<longrightarrow> get_session_dates_for rem user readable = Inl KeyError)
   \<and> (get_session_dates_for rem' user' readable' = Inr ds
    \<longrightarrow> (\<exists>kvs'. download_json_data_from rem' (base_url @ user' @ ''.json?shallow=true'')
                  = Inr (JDict kvs')
             \<and> ''MetaData'' \<in> fst ` set kvs'))"
  using get_session_dates_for_Inr [of rem' user' readable' ds]
  by (simp add: get_session_dates_for_dict)

theorem get_session_dates_for_requires_metadata_witness:
  "get_session_dates_for
      (\<lambda>url. Some (JDict [(''010124000000'', JBool True), (''311223000000'', JBool True)]))
      ''SM8'' False = Inl KeyError
   \<and> get_session_dates_for (\<lambda>url. Some JNull) ''SM8'' True = Inl KeyError
   \<and> get_session_dates_for
      (\<lambda>url. Some (JDict [(''MetaData'', JBool True), (''311223000000'', JBool True)]))
      ''SM8'' False = Inr [''311223000000'']"
proof -
  let ?kvs = "[(''010124000000'', JBool True), (''311223000000'', JBool True)]"
  let ?rem = "\<lambda>url::string. Some (JDict ?kvs)"
  let ?null = "\<lambda>url::string. Some JNull"
  let ?ok = "\<lambda>url::string. Some (JDict [(''MetaData'', JBool True), (''311223000000'', JBool True)])"
  have a: "download_json_data_from ?rem (base_url @ ''SM8'' @ ''.json?shallow=true'') = Inr (JDict ?kvs)
      \<and> ''MetaData'' \<notin> fst ` set ?kvs"
    by (simp add: download_json_data_from_def)
  have b: "download_json_data_from ?null (base_url @ ''SM8'' @ ''.json?shallow=true'') = Inr (JDict [])
      \<and> ''MetaData'' \<notin> fst ` set ([] :: (string \<times> json) list)"
    by (simp add: download_json_data_from_def)
  have c: "get_session_dates_for ?ok ''SM8'' False = Inr [''311223000000'']"
    by (simp add: get_session_dates_for_def download_json_data_from_def date_sort_def)
  show ?thesis
    using a b c
      get_session_dates_for_requires_metadata
        [of ?rem "''SM8''" ?kvs False ?ok "''SM8''" False "[''311223000000'']"]
      get_session_dates_for_requires_metadata
        [of ?null "''SM8''" "[]" True ?ok "''SM8''" False "[''311223000000'']"]
    by blast
qed

lemma get_session_dates_for_tokens_chronological:
  assumes "download_json_data_from rem (base_url @ user @ ''.json?shallow=true'') = Inr (JDict kvs)"
    and "''MetaData'' \<in> fst ` set kvs"
    and "\<forall>k \<in> fst ` set kvs - {''MetaData''}. is_token k"
  shows "\<exists>ds. get_session_dates_for rem user False = Inr ds
           \<and> set ds = fst ` set kvs - {''MetaData''}
           \<and> sorted (map spec_chrono ds)"
proof -
  let ?ks = "map fst (filter (\<lambda>kv. fst kv \<noteq> ''MetaData'') kvs)"
  have r: "get_session_dates_for rem user False = Inr (date_sort ?ks)"
    using assms(2) by (simp add: get_session_dates_for_dict [OF assms(1)])
  have s: "set (date_sort ?ks) = fst ` set kvs - {''MetaData''}"
    by (auto simp: date_sort_def)
  have "list_all is_token ?ks"
    using assms(3) by (auto simp: list_all_iff)
  then have "sorted (map spec_chrono (date_sort ?ks))"
    by (rule date_sort_chrono)
  with r s show ?thesis by blast
qed

text \<open>
  Claim C9. With \<^verbatim>\<open>readable=True\<close> the listing of the tokens of 31 December '23 and of
  1 January '24 (and the reserved key) is returned without the reserved key, but with
  January '24 first: \<^verbatim>\<open>_lex_multiple\<close> formats the tokens before \<^verbatim>\<open>_date_sort\<close> sorts them,
  and in a formatted string the slices of the key are not the year, month and day. The call
  with \<^verbatim>\<open>readable\<close> left \<open>False\<close> returns the same dates in chronological order.
\<close>

theorem get_session_dates_for_readable_not_chronological:
  "get_session_dates_for
     [base_url @ ''SM8.json?shallow=true'' \<mapsto>
        JDict [(''311223000000'', JBool True), (''MetaData'', JBool True),
               (''010124000000'', JBool True)]]
     ''SM8'' True
     = Inr [lex ''010124000000'', lex ''311223000000'']
   \<and> lex ''010124000000'' = ''01.01.24 00:00:00''
   \<and> lex ''311223000000'' = ''31.12.23 00:00:00''
   \<and> spec_chrono ''311223000000'' < spec_chrono ''010124000000''
   \<and> get_session_dates_for
     [base_url @ ''SM8.json?shallow=true'' \<mapsto>
        JDict [(''311223000000'', JBool True), (''MetaData'', JBool True),
               (''010124000000'', JBool True)]]
     ''SM8'' False
     = Inr [''311223000000'', ''010124000000'']"
  by (simp add: get_session_dates_for_def download_json_data_from_def lex_multiple_def
      date_sort_def date_key_def slice_def lex_def lex_characters_def base_url_def
      spec_chrono_def two_digits_def digit_val_def Let_def)

section \<open>Properties of the windowed statistics\<close>

lemma map_nth_window:
  assumes "i + w \<le> length xs"
  shows "map (\<lambda>j. xs ! (i + j)) [0 ..< w] = take w (drop i xs)"
  using assms by (intro nth_equalityI) (auto simp: min_def)

lemma mgrid_sum_nonneg:
  "0 \<le> n \<Longrightarrow> mgrid_sum n w = Inr (map (\<lambda>i. map (\<lambda>j. i + j) [0 ..< w]) [0 ..< nat n])"
  by (simp add: mgrid_sum_def)

lemma mgrid_sum_neg: "n < 0 \<Longrightarrow> mgrid_sum n w = Inl ValueError"
  by (simp add: mgrid_sum_def)

lemma mgrid_sum_in_range:
  assumes "mgrid_sum (int (length signal) - int w + 1) w = Inr grid"
    and "row \<in> set grid" and "k \<in> set row"
  shows "k < length signal"
proof -
  from assms(1) have n: "0 \<le> int (length signal) - int w + 1"
    and g: "grid = map (\<lambda>i. map (\<lambda>j. i + j) [0 ..< w]) [0 ..< nat (int (length signal) - int w + 1)]"
    by (auto simp: mgrid_sum_def split: if_splits)
  from assms(2,3) g obtain i where "i < nat (int (length signal) - int w + 1)" "i \<le> k" "k < w + i"
    by auto
  with n show ?thesis by linarith
qed

lemma windowed_beats_ok:
  assumes "w \<le> length beats + 1"
  shows "windowed_beats beats w
           = Inr (map (\<lambda>i. take w (drop i beats)) [0 ..< length beats + 1 - w])"
proof -
  have n: "nat (int (length beats) - int w + 1) = length beats + 1 - w"
    using assms by linarith
  have "map (\<lambda>i. map (\<lambda>j. beats ! (i + j)) [0 ..< w]) [0 ..< length beats + 1 - w]
        = map (\<lambda>i. take w (drop i beats)) [0 ..< length beats + 1 - w]"
    by (rule map_cong [OF refl]) (use assms in \<open>auto intro!: map_nth_window\<close>)
  then show ?thesis
    using assms
    by (simp add: windowed_beats_def mgrid_sum_def py_bind_def take_indices_def n comp_def)
qed

lemma windowed_beats_short:
  assumes "length beats + 1 < w"
  shows "windowed_beats beats w = Inl ValueError"
  using assms by (simp add: windowed_beats_def mgrid_sum_def py_bind_def)

lemma windowed_signal_ok:
  assumes "w \<le> length signal + 1"
  shows "windowed_signal signal w
           = Inr (map (\<lambda>j. map (\<lambda>i. signal ! (i + j)) [0 ..< length signal + 1 - w]) [0 ..< w])"
proof -
  have n: "nat (int (length signal) - int w + 1) = length signal + 1 - w"
    using assms by linarith
  show ?thesis
    using assms
    by (simp add: windowed_signal_def mgrid_sum_def py_bind_def take_indices_def n comp_def
        np_transpose_def)
qed

lemma map2_map_map: "map2 h (map f js) (map g js) = map (\<lambda>i. h (f i) (g i)) js"
  by (induction js) simp_all

lemma map_upt_shift: "map f [1 ..< n + 1] = map (\<lambda>i. f (i + 1)) [0 ..< n]"
proof -
  have "[1 ..< n + 1] = map Suc [0 ..< n]"
    by (simp add: map_Suc_upt del: upt_Suc)
  then show ?thesis
    by (simp add: comp_def del: upt_Suc)
qed

lemma py_slice_front:
  "py_slice 0 (int (length a) - 1) a = take (length a - 1) a"
  by (cases a) (simp_all add: py_slice_def Let_def nat_diff_distrib)

lemma py_slice_tail:
  "py_slice 1 (int (length a)) a = drop 1 a"
  by (cases a) (simp_all add: py_slice_def Let_def)

lemma spec_std_0: "spec_std 0 a = np_std a"
  by (simp add: spec_std_def np_std_def np_var_def np_mean_def)

lemma SD_ok:
  assumes "w \<le> length beats + 1"
  shows "SD beats w
           = Inr (map (spec_SD1 0 beats w) [0 ..< length beats - w],
                  map (spec_SD2 0 beats w) [0 ..< length beats - w])"
proof -
  let ?n = "length beats + 1 - w"
  let ?win = "\<lambda>i. take w (drop i beats)"
  let ?wb = "map ?win [0 ..< ?n]"
  have n: "int (length beats) - int w + 1 = int (length ?wb)"
    using assms by simp
  have m: "?n - 1 = length beats - w"
    using assms by simp
  have x: "py_slice 0 (int (length ?wb) - 1) ?wb = map ?win [0 ..< length beats - w]"
    unfolding py_slice_front by (simp add: take_map m)
  have "drop 1 ?wb = map ?win [1 ..< ?n]"
    by (simp add: drop_map)
  also have "\<dots> = map (\<lambda>i. ?win (i + 1)) [0 ..< length beats - w]"
  proof (cases "w \<le> length beats")
    case True
    then have "?n = (length beats - w) + 1" by simp
    then show ?thesis using map_upt_shift [of ?win "length beats - w"] by simp
  next
    case False
    then show ?thesis by simp
  qed
  finally have y: "py_slice 1 (int (length ?wb)) ?wb
      = map (\<lambda>i. ?win (i + 1)) [0 ..< length beats - w]"
    unfolding py_slice_tail .
  define xs where "xs = map ?win [0 ..< length beats - w]"
  define ys where "ys = map (\<lambda>i. ?win (i + 1)) [0 ..< length beats - w]"
  have "SD beats w =
      Inr (map (\<lambda>row. np_std row / sqrt 2)
             (rows_sub_plus xs ys (map2 (\<lambda>u v. u - v) (map np_mean ys) (map np_mean xs))),
           map (\<lambda>row. np_std row / sqrt 2)
             (rows_add_minus xs ys (map2 (\<lambda>u v. u + v) (map np_mean xs) (map np_mean ys))))"
    by (simp only: SD_def Let_def windowed_beats_ok [OF assms] py_bind_def sum.case n x y
        xs_def ys_def)
  also have "map (\<lambda>row. np_std row / sqrt 2)
             (rows_sub_plus xs ys (map2 (\<lambda>u v. u - v) (map np_mean ys) (map np_mean xs)))
      = map (spec_SD1 0 beats w) [0 ..< length beats - w]"
    unfolding xs_def ys_def rows_sub_plus_def map2_map_map
    by (simp add: spec_SD1_def Let_def spec_std_0 comp_def zip_map_map zip_same_conv_map
        split_def del: upt_Suc)
  also have "map (\<lambda>row. np_std row / sqrt 2)
             (rows_add_minus xs ys (map2 (\<lambda>u v. u + v) (map np_mean xs) (map np_mean ys)))
      = map (spec_SD2 0 beats w) [0 ..< length beats - w]"
    unfolding xs_def ys_def rows_add_minus_def map2_map_map
    by (simp add: spec_SD2_def Let_def spec_std_0 comp_def zip_map_map zip_same_conv_map
        split_def del: upt_Suc)
  finally show ?thesis .
qed

lemma windowed_sample_variance_ok:
  assumes "w \<le> length signal + 1"
  shows "\<exists>var. windowed_sample_variance signal w = Inr var \<and> length var = length signal - w"
  using assms
  by (simp add: windowed_sample_variance_def windowed_signal_ok py_bind_def Let_def
      np_transpose_def)

lemma windowed_sample_variance_short:
  assumes "length signal + 1 < w"
  shows "windowed_sample_variance signal w = Inl ValueError"
  using assms
  by (simp add: windowed_sample_variance_def windowed_signal_def mgrid_sum_def py_bind_def)

lemma SD_short:
  assumes "length beats + 1 < w"
  shows "SD beats w = Inl ValueError"
  using assms by (simp add: SD_def windowed_beats_short py_bind_def)

lemma windowed_signal_column:
  assumes "w \<le> length signal + 1" and "i < length signal + 1 - w"
  shows "map (\<lambda>row. row ! i)
           (map (\<lambda>j. map (\<lambda>i. signal ! (i + j)) [0 ..< length signal + 1 - w]) [0 ..< w])
         = take w (drop i signal)"
proof -
  have "map (\<lambda>row. row ! i)
           (map (\<lambda>j. map (\<lambda>i. signal ! (i + j)) [0 ..< length signal + 1 - w]) [0 ..< w])
        = map (\<lambda>j. signal ! (i + j)) [0 ..< w]"
    using assms(2) by (simp add: comp_def del: upt_Suc)
  also have "\<dots> = take w (drop i signal)"
    using assms by (intro map_nth_window) simp
  finally show ?thesis .
qed

text \<open>
  Claim C1, as the code has it. For a signal of \<open>N\<close> samples and a window size \<open>w \<le> N + 1\<close>
  the windowing of \<^verbatim>\<open>SD\<close> and of \<^verbatim>\<open>windowed_sample_variance\<close> builds exactly \<open>N - w + 1\<close>
  windows, window \<open>i\<close> being the samples \<open>[i, i + w)\<close> (a row of \<^verbatim>\<open>windowed_beats\<close>, a column
  of the transposed array of \<^verbatim>\<open>windowed_sample_variance\<close>). No check of the length is made:
  for \<open>N = w - 1\<close> there are no windows and both functions return empty series without an
  error; for \<open>N < w - 1\<close> the construction of the index grid raises \<^verbatim>\<open>ValueError\<close>.
\<close>

theorem sliding_windows_count_and_cover:
  "(w \<le> length signal + 1 \<longrightarrow>
      (\<exists>wb. windowed_beats signal w = Inr wb
          \<and> length wb = length signal + 1 - w
          \<and> (\<forall>i < length signal + 1 - w. wb ! i = take w (drop i signal)))
    \<and> (\<exists>ws. windowed_signal signal w = Inr ws
          \<and> length ws = w
          \<and> (\<forall>row \<in> set ws. length row = length signal + 1 - w)
          \<and> (\<forall>i < length signal + 1 - w. map (\<lambda>row. row ! i) ws = take w (drop i signal))))
   \<and> (length signal + 1 = w \<longrightarrow>
        SD signal w = Inr ([], []) \<and> windowed_sample_variance signal w = Inr [])
   \<and> (length signal + 1 < w \<longrightarrow>
        SD signal w = Inl ValueError \<and> windowed_sample_variance signal w = Inl ValueError)"
proof (intro conjI impI)
  assume w: "w \<le> length signal + 1"
  show "\<exists>wb. windowed_beats signal w = Inr wb
          \<and> length wb = length signal + 1 - w
          \<and> (\<forall>i < length signal + 1 - w. wb ! i = take w (drop i signal))"
    by (simp add: windowed_beats_ok [OF w] del: upt_Suc)
  show "\<exists>ws. windowed_signal signal w = Inr ws
          \<and> length ws = w
          \<and> (\<forall>row \<in> set ws. length row = length signal + 1 - w)
          \<and> (\<forall>i < length signal + 1 - w. map (\<lambda>row. row ! i) ws = take w (drop i signal))"
    unfolding windowed_signal_ok [OF w]
    using windowed_signal_column [OF w] by (auto simp del: upt_Suc)
next
  assume w: "length signal + 1 = w"
  then have le: "w \<le> length signal + 1" by simp
  from w show "SD signal w = Inr ([], [])"
    by (simp add: SD_ok [OF le])
  from windowed_sample_variance_ok [OF le] w
  show "windowed_sample_variance signal w = Inr []"
    by auto
next
  assume "length signal + 1 < w"
  then show "SD signal w = Inl ValueError" "windowed_sample_variance signal w = Inl ValueError"
    by (rule SD_short, rule windowed_sample_variance_short)
qed

theorem sliding_windows_count_and_cover_witness:
  "(3::nat) \<le> length [1, 2, 3, 4, 5 :: real] + 1
   \<and> windowed_beats [1, 2, 3, 4, 5] 3 = Inr [[1, 2, 3], [2, 3, 4], [3, 4, 5]]
   \<and> windowed_signal [1, 2, 3, 4, 5] 3 = Inr [[1, 2, 3], [2, 3, 4], [3, 4, 5]]
   \<and> length [1, 2 :: real] + 1 = 3
   \<and> SD [1, 2] 3 = Inr ([], []) \<and> windowed_sample_variance [1, 2] 3 = Inr []
   \<and> length [1 :: real] + 1 < 3
   \<and> SD [1] 3 = Inl ValueError \<and> windowed_sample_variance [1] 3 = Inl ValueError"
proof -
  have h1: "(3::nat) \<le> length [1, 2, 3, 4, 5 :: real] + 1" by simp
  have h2: "length [1, 2 :: real] + 1 = 3" by simp
  have h3: "length [1 :: real] + 1 < 3" by simp
  have wb: "windowed_beats [1, 2, 3, 4, 5] 3 = Inr [[1, 2, 3], [2, 3, 4], [3, 4, 5]]"
    by (simp add: windowed_beats_def mgrid_sum_def take_indices_def py_bind_def
        eval_nat_numeral)
  have ws: "windowed_signal [1, 2, 3, 4, 5] 3 = Inr [[1, 2, 3], [2, 3, 4], [3, 4, 5]]"
    by (simp add: windowed_signal_def mgrid_sum_def take_indices_def py_bind_def
        np_transpose_def eval_nat_numeral)
  show ?thesis
    using h1 h2 h3 wb ws
      sliding_windows_count_and_cover [of 3 "[1, 2, 3, 4, 5]"]
      sliding_windows_count_and_cover [of 3 "[1, 2]"]
      sliding_windows_count_and_cover [of 3 "[1]"]
    by blast
qed

text \<open>
  A signal of two samples and a window of three: shorter than the window, and every function
  returns a value, the empty one.
\<close>

theorem sliding_windows_no_error_counterexample:
  "windowed_beats [1, 2] 3 = Inr []
   \<and> SD [1, 2] 3 = Inr ([], [])
   \<and> windowed_signal [1, 2] 3 = Inr [[], [], []]
   \<and> windowed_sample_variance [1, 2] 3 = Inr []"
  by (simp add: SD_def windowed_beats_def windowed_sample_variance_def windowed_signal_def
      mgrid_sum_def take_indices_def py_slice_def py_bind_def np_transpose_def
      rows_sub_plus_def rows_add_minus_def Let_def eval_nat_numeral)

lemma np_diff_nth:
  "np_diff a = map (\<lambda>i. a ! (i + 1) - a ! i) [0 ..< length a - 1]"
  by (intro nth_equalityI) (auto simp: np_diff_def nth_butlast)

lemma windowed_sample_variance_values:
  assumes "w \<le> length signal + 1"
  shows "windowed_sample_variance signal w
           = Inr (map (\<lambda>i. np_var (np_diff (take (w + 1) (drop i signal)))) [0 ..< length signal - w])"
proof -
  let ?n = "length signal + 1 - w"
  have n: "nat (int (length signal) - int w + 1) - 1 = length signal - w"
    using assms by linarith
  have m: "?n - 1 = length signal - w"
    using assms by simp
  have col: "map (\<lambda>j. np_diff (map (\<lambda>i. signal ! (i + j)) [0 ..< ?n]) ! i) [0 ..< w]
             = np_diff (take (w + 1) (drop i signal))" if i: "i < length signal - w" for i
  proof -
    have len: "length (take (w + 1) (drop i signal)) - 1 = w"
      using i by simp
    have "map (\<lambda>j. np_diff (map (\<lambda>i. signal ! (i + j)) [0 ..< ?n]) ! i) [0 ..< w]
          = map (\<lambda>j. signal ! (i + 1 + j) - signal ! (i + j)) [0 ..< w]"
      using i by (simp add: np_diff_nth m comp_def del: upt_Suc)
    also have "\<dots> = np_diff (take (w + 1) (drop i signal))"
      unfolding np_diff_nth [of "take (w + 1) (drop i signal)"] len
      using i by (intro map_cong [OF refl]) (simp add: add.commute add.left_commute)
    finally show ?thesis .
  qed
  show ?thesis
    unfolding windowed_sample_variance_def Let_def windowed_signal_ok [OF assms] py_bind_def n
    using col by (simp add: np_transpose_def comp_def del: upt_Suc)
qed

lemma is_above_thresh_mask:
  assumes "windowed_sample_variance signal w = Inr var" and "0 < w"
  shows "is_above_thresh signal w t = Inr (replicate (w - 1) False @ map (\<lambda>v. t < v) var)"
  using assms
  by (simp add: is_above_thresh_def py_bind_def Let_def find_high_variance_def comp_def)

lemma is_above_thresh_length:
  assumes "0 < w" and "w \<le> length signal"
  shows "\<exists>mask. is_above_thresh signal w t = Inr mask \<and> length mask = length signal - 1"
proof -
  from assms obtain var where v: "windowed_sample_variance signal w = Inr var"
    and l: "length var = length signal - w"
    using windowed_sample_variance_ok [of w signal] by auto
  show ?thesis
    using assms l by (simp add: is_above_thresh_mask [OF v assms(1)])
qed

text \<open>
  Claim C2. On the signal \<open>[1,1,1,1,10,10,10,10]\<close> with a window of \<open>4\<close> (and the threshold
  \<open>1\<close> of the code) the mask of \<^verbatim>\<open>mark_high_var\<close> has seven entries for eight samples:
  \<^verbatim>\<open>windowed_sample_variance\<close> returns \<open>N - w\<close> values (lemma
  \<open>windowed_sample_variance_values\<close>), not \<open>N - w + 1\<close>, and the padding is \<open>w - 1\<close>
  (lemmas \<open>is_above_thresh_mask\<close> and \<open>is_above_thresh_length\<close>).
\<close>

theorem mark_high_var_mask_is_one_short:
  "mark_high_var [1, 1, 1, 1, 10, 10, 10, 10] 4
     = Inr [False, False, False, True, True, True, True]"
  by code_simp

text \<open>
  Claim C3, as the code has it. For a window size \<open>0 < w \<le> N\<close>, \<^verbatim>\<open>SD\<close> returns \<open>N - w\<close>
  values of each series, and the values at index \<open>i\<close> are the specification's \<open>SD1\<^sub>i\<close> and
  \<open>SD2\<^sub>i\<close> with the population standard deviation (\<^verbatim>\<open>ddof=0\<close>, the default of
  \<^verbatim>\<open>np.std\<close>), not the sample one.
\<close>

theorem SD_is_population_dispersion:
  assumes "0 < w" and "w \<le> length beats"
  shows "\<exists>sd1 sd2. SD beats w = Inr (sd1, sd2)
           \<and> length sd1 = length beats - w \<and> length sd2 = length beats - w
           \<and> (\<forall>i < length beats - w.
                 sd1 ! i = spec_SD1 0 beats w i \<and> sd2 ! i = spec_SD2 0 beats w i)"
proof -
  from assms have "w \<le> length beats + 1" by simp
  then show ?thesis
    by (simp add: SD_ok del: upt_Suc)
qed

lemma sqrt_quarter: "sqrt (1 / 4) = 1 / 2"
  by (simp add: real_sqrt_divide)

lemma sqrt_nine_quarters: "sqrt (9 / 4) = 3 / 2"
proof -
  have "sqrt 9 = sqrt (3\<^sup>2)" by simp
  also have "\<dots> = 3" by (simp del: power2_eq_square)
  finally show ?thesis by (simp add: real_sqrt_divide)
qed

theorem SD_is_population_dispersion_witness:
  "SD [0, 1, 3] 2 = Inr ([1 / 2 / sqrt 2], [3 / 2 / sqrt 2])"
proof -
  have a: "spec_SD1 0 [0, 1, 3] 2 0 = 1 / 2 / sqrt 2"
    by (simp add: spec_SD1_def spec_std_def np_mean_def Let_def power2_eq_square sqrt_quarter)
  have b: "spec_SD2 0 [0, 1, 3] 2 0 = 3 / 2 / sqrt 2"
    by (simp add: spec_SD2_def spec_std_def np_mean_def Let_def power2_eq_square sqrt_nine_quarters)
  have h: "(0::nat) < 2" "2 \<le> length [0, 1, 3 :: real]"
    by simp_all
  from SD_is_population_dispersion [OF h]
  obtain sd1 sd2 where sd: "SD [0, 1, 3] 2 = Inr (sd1, sd2)"
    and l: "length sd1 = 1" "length sd2 = 1"
    and v: "sd1 ! 0 = spec_SD1 0 [0, 1, 3] 2 0" "sd2 ! 0 = spec_SD2 0 [0, 1, 3] 2 0"
    by auto
  from l v have "sd1 = [1 / 2 / sqrt 2]" "sd2 = [3 / 2 / sqrt 2]"
    by (auto simp: a b length_Suc_conv)
  with sd show ?thesis by simp
qed

text \<open>
  On the beats \<open>[0, 1, 3]\<close> with a window of two the code returns \<open>1 / 2 / sqrt 2\<close> and
  \<open>3 / 2 / sqrt 2\<close>, where the formulas with \<^verbatim>\<open>ddof=1\<close> give \<open>1/2\<close> and \<open>3/2\<close>.
\<close>

theorem SD_sample_std_counterexample:
  "SD [0, 1, 3] 2 = Inr ([1 / 2 / sqrt 2], [3 / 2 / sqrt 2])
   \<and> spec_SD1 1 [0, 1, 3] 2 0 = 1 / 2
   \<and> spec_SD2 1 [0, 1, 3] 2 0 = 3 / 2
   \<and> 1 / 2 / sqrt 2 \<noteq> (1 / 2 :: real)
   \<and> 3 / 2 / sqrt 2 \<noteq> (3 / 2 :: real)"
proof -
  have le: "(2::nat) \<le> length [0, 1, 3 :: real] + 1" by simp
  have a: "spec_SD1 0 [0, 1, 3] 2 0 = 1 / 2 / sqrt 2"
    by (simp add: spec_SD1_def spec_std_def np_mean_def Let_def power2_eq_square sqrt_quarter)
  have b: "spec_SD2 0 [0, 1, 3] 2 0 = 3 / 2 / sqrt 2"
    by (simp add: spec_SD2_def spec_std_def np_mean_def Let_def power2_eq_square sqrt_nine_quarters)
  have code: "SD [0, 1, 3] 2 = Inr ([1 / 2 / sqrt 2], [3 / 2 / sqrt 2])"
    unfolding SD_ok [OF le] by (simp add: a b)
  have half: "sqrt (1 / 2) / sqrt 2 = 1 / 2"
    by (simp add: real_sqrt_divide [symmetric] sqrt_quarter del: real_sqrt_divide)
  have "sqrt (9 / 2) / sqrt 2 = sqrt (9 / 4)"
    by (simp add: real_sqrt_divide [symmetric] del: real_sqrt_divide)
  then have three: "sqrt (9 / 2) / sqrt 2 = 3 / 2"
    by (simp only: sqrt_nine_quarters)
  have c: "spec_SD1 1 [0, 1, 3] 2 0 = 1 / 2"
    using half by (simp add: spec_SD1_def spec_std_def np_mean_def Let_def power2_eq_square)
  have d: "spec_SD2 1 [0, 1, 3] 2 0 = 3 / 2"
    using three by (simp add: spec_SD2_def spec_std_def np_mean_def Let_def power2_eq_square)
  have "sqrt 2 \<noteq> 1"
    by simp
  then have ne: "1 / 2 / sqrt 2 \<noteq> (1 / 2 :: real)" "3 / 2 / sqrt 2 \<noteq> (3 / 2 :: real)"
    by (simp_all add: field_simps)
  show ?thesis
    using code c d ne by blast
qed

lemma np_mean_replicate: "0 < w \<Longrightarrow> np_mean (replicate w k) = k"
  by (simp add: np_mean_def sum_list_replicate)

lemma spec_std_zeros: "spec_std 0 (replicate w 0) = 0"
  by (simp add: spec_std_def np_mean_def sum_list_replicate)

lemma window_replicate:
  "i + w \<le> N \<Longrightarrow> take w (drop i (replicate N k)) = replicate w (k::real)"
  by (simp add: min_def)

lemma spec_SD1_constant:
  assumes "i < N - w"
  shows "spec_SD1 0 (replicate N k) w i = 0"
proof -
  from assms have a: "i + w \<le> N" and b: "(i + 1) + w \<le> N" by simp_all
  show ?thesis
    unfolding spec_SD1_def Let_def window_replicate [OF a] window_replicate [OF b]
    by (simp add: spec_std_zeros)
qed

lemma spec_SD2_constant:
  assumes "i < N - w" and "0 < w"
  shows "spec_SD2 0 (replicate N k) w i = 0"
proof -
  from assms have a: "i + w \<le> N" and b: "(i + 1) + w \<le> N" by simp_all
  show ?thesis
    unfolding spec_SD2_def Let_def window_replicate [OF a] window_replicate [OF b]
    by (simp add: spec_std_zeros np_mean_replicate [OF assms(2)])
qed

lemma SD_constant:
  assumes "0 < w" and "w \<le> N"
  shows "SD (replicate N k) w = Inr (replicate (N - w) 0, replicate (N - w) 0)"
proof -
  have le: "w \<le> length (replicate N k) + 1" using assms by simp
  have 1: "map (spec_SD1 0 (replicate N k) w) [0 ..< N - w] = replicate (N - w) 0"
    by (intro nth_equalityI) (simp_all add: spec_SD1_constant del: upt_Suc)
  have 2: "map (spec_SD2 0 (replicate N k) w) [0 ..< N - w] = replicate (N - w) 0"
    by (intro nth_equalityI) (simp_all add: spec_SD2_constant assms(1) del: upt_Suc)
  show ?thesis
    unfolding SD_ok [OF le] by (simp add: 1 2)
qed

lemma zero_clamp_zeros:
  "zero_clamp (replicate m 0, replicate m 0) = (replicate m 1, replicate m 1)"
  by (simp add: zero_clamp_def Let_def)

lemma SD_lengths:
  assumes "SD beats w = Inr (sd1, sd2)"
  shows "length sd1 = length beats - w \<and> length sd2 = length beats - w"
proof (cases "w \<le> length beats + 1")
  case True
  from assms show ?thesis unfolding SD_ok [OF True] by auto
next
  case False
  then have "SD beats w = Inl ValueError" by (intro SD_short) simp
  with assms show ?thesis by simp
qed

lemma zero_clamp_nth:
  assumes "length sd2 = length sd1" and "i < length sd1"
  shows "fst (zero_clamp (sd1, sd2)) ! i = (if sd1 ! i = 0 then 1 else sd1 ! i)"
    and "snd (zero_clamp (sd1, sd2)) ! i = (if sd1 ! i = 0 then 1 else sd2 ! i)"
  using assms by (simp_all add: zero_clamp_def Let_def)

lemma zero_clamp_length:
  assumes "length sd2 = length sd1"
  shows "length (fst (zero_clamp (sd1, sd2))) = length sd1"
    and "length (snd (zero_clamp (sd1, sd2))) = length sd1"
  using assms by (simp_all add: zero_clamp_def Let_def)

text \<open>
  Claim C4. Wherever the \<open>SD1\<close> series of \<^verbatim>\<open>SD\<close> is \<open>0\<close>, the masked assignments of
  \<^verbatim>\<open>CSI\<close> put \<open>1\<close> into both series and the ratio returned there is \<open>1\<close>. For a constant
  signal of \<open>N\<close> beat intervals and a window \<open>0 < w \<le> N\<close>, both series are \<open>0\<close> at each of
  the \<open>N - w\<close> indices, both are \<open>1\<close> after the assignments, and \<^verbatim>\<open>CSI\<close> is \<open>1\<close>
  everywhere.
\<close>

theorem CSI_zero_clamp_and_constant_signal:
  "(SD beats w = Inr (sd1, sd2) \<and> i < length sd1 \<and> sd1 ! i = 0
      \<longrightarrow> fst (zero_clamp (sd1, sd2)) ! i = 1 \<and> snd (zero_clamp (sd1, sd2)) ! i = 1
          \<and> (\<exists>cs. CSI beats w False = Inr cs \<and> length cs = length sd1 \<and> cs ! i = 1))
   \<and> (0 < w \<and> w \<le> N
      \<longrightarrow> SD (replicate N k) w = Inr (replicate (N - w) 0, replicate (N - w) 0)
          \<and> zero_clamp (replicate (N - w) 0, replicate (N - w) 0)
              = (replicate (N - w) 1, replicate (N - w) 1)
          \<and> CSI (replicate N k) w False = Inr (replicate (N - w) 1))"
proof (intro conjI impI)
  assume a: "SD beats w = Inr (sd1, sd2) \<and> i < length sd1 \<and> sd1 ! i = 0"
  then have l: "length sd2 = length sd1" using SD_lengths by auto
  from a have i: "i < length sd1" and z: "sd1 ! i = 0" by simp_all
  show 1: "fst (zero_clamp (sd1, sd2)) ! i = 1"
    using zero_clamp_nth(1) [OF l i] z by simp
  show 2: "snd (zero_clamp (sd1, sd2)) ! i = 1"
    using zero_clamp_nth(2) [OF l i] z by simp
  have "CSI beats w False
      = Inr (map2 (\<lambda>s2 s1. s2 / s1) (snd (zero_clamp (sd1, sd2))) (fst (zero_clamp (sd1, sd2))))"
    using a by (simp add: CSI_def py_bind_def Let_def)
  moreover have "length (map2 (\<lambda>s2 s1. s2 / s1) (snd (zero_clamp (sd1, sd2)))
      (fst (zero_clamp (sd1, sd2)))) = length sd1"
    by (simp add: zero_clamp_length [OF l])
  moreover have "map2 (\<lambda>s2 s1. s2 / s1) (snd (zero_clamp (sd1, sd2)))
      (fst (zero_clamp (sd1, sd2))) ! i = 1"
    using i by (simp add: zero_clamp_length [OF l] 1 2)
  ultimately show "\<exists>cs. CSI beats w False = Inr cs \<and> length cs = length sd1 \<and> cs ! i = 1"
    by blast
next
  assume a: "0 < w \<and> w \<le> N"
  then have sd: "SD (replicate N k) w = Inr (replicate (N - w) 0, replicate (N - w) 0)"
    using SD_constant by blast
  then show "SD (replicate N k) w = Inr (replicate (N - w) 0, replicate (N - w) 0)" .
  show "zero_clamp (replicate (N - w) 0, replicate (N - w) 0)
              = (replicate (N - w) 1, replicate (N - w) 1)"
    by (rule zero_clamp_zeros)
  show "CSI (replicate N k) w False = Inr (replicate (N - w) 1)"
    by (simp add: CSI_def py_bind_def Let_def sd zero_clamp_zeros)
qed

theorem CSI_zero_clamp_and_constant_signal_witness:
  "SD [7, 7, 7, 7, 7] 3 = Inr ([0, 0], [0, 0])
   \<and> zero_clamp ([0, 0], [0, 0]) = ([1, 1], [1, 1])
   \<and> CSI [7, 7, 7, 7, 7] 3 False = Inr [1, 1]"
proof -
  have r: "replicate 5 (7::real) = [7, 7, 7, 7, 7]"
    by (simp add: eval_nat_numeral)
  have h: "(0::nat) < 3 \<and> (3::nat) \<le> 5" by simp
  have m: "replicate (5 - 3) (0::real) = [0, 0]" "replicate (5 - 3) (1::real) = [1, 1]"
    by (simp_all add: eval_nat_numeral)
  have sd: "SD [7, 7, 7, 7, 7] 3 = Inr ([0, 0], [0, 0])"
    using h CSI_zero_clamp_and_constant_signal [of "[7, 7, 7, 7, 7]" 3 "[0, 0]" "[0, 0]" 0 5 7]
    unfolding r m by blast
  have i: "(0::nat) < length [0, 0 :: real] \<and> [0, 0 :: real] ! 0 = 0" by simp
  show ?thesis
    using h sd i
      CSI_zero_clamp_and_constant_signal [of "[7, 7, 7, 7, 7]" 3 "[0, 0]" "[0, 0]" 0 5 7]
    unfolding r m by blast
qed

section \<open>Properties of the cache and of user assembly\<close>


lemma save_update:
  "save dumps fs u True
     = Inr (Some ((case fs of None \<Rightarrow> Map.empty | Some d \<Rightarrow> d)(user_name u @ ''.pkl'' \<mapsto> dumps u)))"
  by (simp add: save_def look_for_and_create_users_folder_def open_wb_dump_def py_bind_def
      split: option.splits)

text \<open>
  Claim C6. Given that unpickling what was pickled gives the user back, \<^verbatim>\<open>save(u)\<close> followed
  by \<^verbatim>\<open>get_user(u.user_name)\<close> with \<^verbatim>\<open>reload\<close> left \<open>False\<close> returns a record equal to
  \<open>u\<close> (all fields), whatever the directory, the remote store and the user list are.
\<close>

theorem store_then_fetch_round_trip:
  assumes "loads (dumps u) = Some u"
  shows "\<exists>fs'. save dumps fs u True = Inr fs'
           \<and> get_user loads dumps rem ul fs' (user_name u) False = (Inr (Some u), fs')"
  using assms
  by (simp add: save_update get_user_def look_for_and_create_users_folder_def
      is_file_in_directory_def load_def py_bind_def)

theorem store_then_fetch_round_trip_witness:
  "Some test_user = Some test_user
   \<and> save (\<lambda>u. u) None test_user True = Inr (Some [''SM8.pkl'' \<mapsto> test_user])
   \<and> get_user Some (\<lambda>u. u) Map.empty [] (Some [''SM8.pkl'' \<mapsto> test_user]) ''SM8'' False
       = (Inr (Some test_user), Some [''SM8.pkl'' \<mapsto> test_user])"
proof -
  have s: "save (\<lambda>u. u) None test_user True = Inr (Some [''SM8.pkl'' \<mapsto> test_user])"
    by (simp add: save_update test_user_def)
  have n: "user_name test_user = ''SM8''"
    by (simp add: test_user_def)
  from store_then_fetch_round_trip [of Some "\<lambda>u. u" test_user None Map.empty "[]"]
  show ?thesis
    unfolding s n by simp
qed

text \<open>
  Claim C7. When the directory already holds an entry for the user, \<^verbatim>\<open>save\<close> with
  \<^verbatim>\<open>update=False\<close> returns without an error and leaves the directory, hence that entry,
  as it was.
\<close>

theorem save_without_update_keeps_entry:
  assumes "fs = Some d" and "d (user_name u @ ''.pkl'') = Some content"
  shows "save dumps fs u False = Inr fs"
  using assms
  by (simp add: save_def look_for_and_create_users_folder_def is_file_in_directory_def py_bind_def)

theorem save_without_update_keeps_entry_witness:
  "save (\<lambda>u. u) (Some [''SM8.pkl'' \<mapsto> test_user\<lparr>events := JNull\<rparr>]) test_user False
     = Inr (Some [''SM8.pkl'' \<mapsto> test_user\<lparr>events := JNull\<rparr>])"
proof -
  have n: "[''SM8.pkl'' \<mapsto> test_user\<lparr>events := JNull\<rparr>] (user_name test_user @ ''.pkl'')
            = Some (test_user\<lparr>events := JNull\<rparr>)"
    by (simp add: test_user_def)
  show ?thesis
    using n
      save_without_update_keeps_entry
        [of "Some [''SM8.pkl'' \<mapsto> test_user\<lparr>events := JNull\<rparr>]"
            "[''SM8.pkl'' \<mapsto> test_user\<lparr>events := JNull\<rparr>]" test_user
            "test_user\<lparr>events := JNull\<rparr>" "\<lambda>u. u"]
    by simp
qed

lemma get_profile_for_empty:
  assumes "rem (base_url @ name @ ''/MetaData/Profile.json'') = Some JNull
           \<or> rem (base_url @ name @ ''/MetaData/Profile.json'') = Some (JDict [])"
    and "name \<noteq> ''all''"
  shows "get_profile_for rem ul name = Inr (JDict [])"
  using assms
  by (auto simp: get_profile_for_def get_individual_profile_for_def download_json_data_from_def
      py_bind_def)

text \<open>
  Claim C8, as the code has it. For an empty profile response (\<^verbatim>\<open>null\<close> or \<^verbatim>\<open>{}\<close>) of a
  user not named \<^verbatim>\<open>all\<close>, \<^verbatim>\<open>get_profile_for\<close> returns the empty mapping, and
  \<^verbatim>\<open>Profile.__init__\<close> raises \<^verbatim>\<open>KeyError\<close> at its first subscription, so \<^verbatim>\<open>User.__init__\<close>
  raises it too: no field has a default.
\<close>

theorem empty_profile_response_raises_KeyError:
  assumes "rem (base_url @ name @ ''/MetaData/Profile.json'') = Some JNull
           \<or> rem (base_url @ name @ ''/MetaData/Profile.json'') = Some (JDict [])"
    and "name \<noteq> ''all''"
  shows "get_profile_for rem ul name = Inr (JDict [])
         \<and> Profile_init rem ul name = Inl KeyError
         \<and> User_init rem ul name = Inl KeyError"
  using get_profile_for_empty [of rem name ul] assms
  by (simp add: Profile_init_def User_init_def py_bind_def)

theorem empty_profile_response_raises_KeyError_witness:
  "sm8_remote JNull (base_url @ ''SM8'' @ ''/MetaData/Profile.json'') = Some JNull
   \<and> ''SM8'' \<noteq> ''all''
   \<and> get_profile_for (sm8_remote JNull) [''SM8''] ''SM8'' = Inr (JDict [])
   \<and> Profile_init (sm8_remote JNull) [''SM8''] ''SM8'' = Inl KeyError
   \<and> User_init (sm8_remote JNull) [''SM8''] ''SM8'' = Inl KeyError"
proof -
  have h: "sm8_remote JNull (base_url @ ''SM8'' @ ''/MetaData/Profile.json'') = Some JNull"
    by (simp add: sm8_remote_def base_url_def)
  have n: "''SM8'' \<noteq> ''all''" by simp
  show ?thesis
    using h n empty_profile_response_raises_KeyError [of "sm8_remote JNull" "''SM8''" "[''SM8'']"]
    by blast
qed

text \<open>
  The remote store answers every read of the assembly, with an empty profile: the assembly
  raises \<^verbatim>\<open>KeyError\<close>.
\<close>

theorem empty_profile_response_counterexample:
  "User_init (sm8_remote JNull) [''SM8''] ''SM8'' = Inl KeyError
   \<and> User_init (sm8_remote (JDict [])) [''SM8''] ''SM8'' = Inl KeyError"
  by (simp add: User_init_def Profile_init_def get_profile_for_def get_individual_profile_for_def
      download_json_data_from_def py_bind_def sm8_remote_def base_url_def)

lemma User_init_full_profile:
  "User_init (sm8_remote (JDict [(''Date of Birth'', JStr ''01.01.1990''), (''Gender'', JStr ''F''),
       (''Height (m)'', JNum 1.7), (''Weight (kg)'', JNum 60)])) [''SM8''] ''SM8'' = Inr test_user"
  by (simp add: User_init_def Profile_init_def get_profile_for_def get_individual_profile_for_def
      download_json_data_from_def py_bind_def sm8_remote_def base_url_def test_user_def
      get_events_for_def get_session_for_def get_session_dates_for_def date_sort_def)

end
